theory Spec2Isabelle
  imports Main "HOL-Library.Word"
begin

unbundle bit_operations_syntax

section \<open>Data model of \<^verbatim>\<open>stlutil.hpp\<close>\<close>

text \<open>
  A \<^verbatim>\<open>float\<close> is kept as its 32-bit IEEE-754 binary32 pattern: the reader fills floats
  by copying four file bytes into the object, so the bit pattern is what the program
  stores. The host is taken to be little-endian (the first byte read is the least
  significant one), as the file format expects.
\<close>

type_synonym byte = "8 word"
type_synonym float = "32 word"

datatype STLVector = STLVector (vec_x: float) (vec_y: float) (vec_z: float)

datatype STLSegment = STLSegment (seg_p: STLVector) (seg_q: STLVector)

datatype STLPolygon =
  STLPolygon (poly_normal: STLVector) (poly_a: STLVector) (poly_b: STLVector) (poly_c: STLVector)

text \<open>
  The members \<^verbatim>\<open>header_\<close> and \<^verbatim>\<open>polygons_\<close> are the fields \<open>stl_header\<close> and
  \<open>stl_polygons\<close>; the accessors \<^verbatim>\<open>header()\<close> and \<^verbatim>\<open>polygons()\<close> return them unchanged.
\<close>

record STLReader =
  stl_header :: "byte list"
  stl_polygons :: "STLPolygon list"
  valid :: bool

section \<open>The input stream\<close>

text \<open>
  \<^verbatim>\<open>std::ifstream\<close> after \<^verbatim>\<open>exceptions(failbit | badbit)\<close>: the unread bytes and the
  eofbit. Setting failbit throws \<^verbatim>\<open>std::ios_base::failure\<close> at once, so a stream that is
  still running never has it set; eofbit alone does not throw. Every input function first
  builds a sentry, which sets failbit (and so throws) when the stream is not good, that
  is, when eofbit is already set.
\<close>

datatype exn = ios_failure

record ifstream =
  buf :: "byte list"
  eofbit :: bool

text \<open>\<^verbatim>\<open>read(dst, n)\<close>: end of file before \<open>n\<close> bytes sets failbit and eofbit.\<close>

definition stream_read :: "ifstream \<Rightarrow> nat \<Rightarrow> exn + (byte list \<times> ifstream)" where
  "stream_read s n =
     (if eofbit s then Inl ios_failure
      else if length (buf s) < n then Inl ios_failure
      else Inr (take n (buf s), s\<lparr>buf := drop n (buf s)\<rparr>))"

text \<open>\<^verbatim>\<open>ignore(n)\<close>: end of file before \<open>n\<close> bytes sets eofbit only.\<close>

definition stream_ignore :: "ifstream \<Rightarrow> nat \<Rightarrow> exn + ifstream" where
  "stream_ignore s n =
     (if eofbit s then Inl ios_failure
      else if length (buf s) < n then Inr (s\<lparr>buf := [], eofbit := True\<rparr>)
      else Inr (s\<lparr>buf := drop n (buf s)\<rparr>))"

section \<open>STLReader\<close>

text \<open>Four bytes copied into a 32-bit object on a little-endian host.\<close>

definition le32 :: "byte list \<Rightarrow> 32 word" where
  "le32 bs = word_of_nat (foldr (\<lambda>b n. unat b + 256 * n) bs 0)"

definition read_float :: "ifstream \<Rightarrow> exn + (float \<times> ifstream)" where
  "read_float s =
     (case stream_read s 4 of
        Inl e \<Rightarrow> Inl e
      | Inr (bs, s') \<Rightarrow> Inr (le32 bs, s'))"

text \<open>The three reads into \<open>x\<close>, \<open>y\<close>, \<open>z\<close> of one vector.\<close>

definition read_vector :: "ifstream \<Rightarrow> exn + (STLVector \<times> ifstream)" where
  "read_vector s =
     (case read_float s of
        Inl e \<Rightarrow> Inl e
      | Inr (x, s1) \<Rightarrow>
          (case read_float s1 of
             Inl e \<Rightarrow> Inl e
           | Inr (y, s2) \<Rightarrow>
               (case read_float s2 of
                  Inl e \<Rightarrow> Inl e
                | Inr (z, s3) \<Rightarrow> Inr (STLVector x y z, s3))))"

text \<open>One pass of the loop body: normal, a, b, c, then \<^verbatim>\<open>ignore(2)\<close>.\<close>

definition read_polygon :: "ifstream \<Rightarrow> exn + (STLPolygon \<times> ifstream)" where
  "read_polygon s =
     (case read_vector s of
        Inl e \<Rightarrow> Inl e
      | Inr (normal, s1) \<Rightarrow>
          (case read_vector s1 of
             Inl e \<Rightarrow> Inl e
           | Inr (a, s2) \<Rightarrow>
               (case read_vector s2 of
                  Inl e \<Rightarrow> Inl e
                | Inr (b, s3) \<Rightarrow>
                    (case read_vector s3 of
                       Inl e \<Rightarrow> Inl e
                     | Inr (c, s4) \<Rightarrow>
                         (case stream_ignore s4 2 of
                            Inl e \<Rightarrow> Inl e
                          | Inr s5 \<Rightarrow> Inr (STLPolygon normal a b c, s5))))))"

text \<open>The range-for over the \<open>size\<close> elements of \<^verbatim>\<open>polygons_\<close>, in order.\<close>

fun read_polygons :: "nat \<Rightarrow> ifstream \<Rightarrow> exn + (STLPolygon list \<times> ifstream)" where
  "read_polygons 0 s = Inr ([], s)"
| "read_polygons (Suc n) s =
     (case read_polygon s of
        Inl e \<Rightarrow> Inl e
      | Inr (poly, s') \<Rightarrow>
          (case read_polygons n s' of
             Inl e \<Rightarrow> Inl e
           | Inr (polys, s'') \<Rightarrow> Inr (poly # polys, s'')))"

definition cannot_open_message :: "string \<Rightarrow> string" where
  "cannot_open_message path =
     ''STLReader::STLReader() Error: Cannot open file `'' @ path @ ''`.'' @ [CHR 0x0A]"

text \<open>
  The constructor. The file system maps a path to the content of the file, or to \<open>None\<close>
  when the file cannot be opened. The result is what was written to \<^verbatim>\<open>std::cerr\<close> and
  either the constructed object or the exception that left the constructor; in the latter
  case C++ destroys the members and no object exists. Memory exhaustion in
  \<^verbatim>\<open>resize\<close> is outside the model.
\<close>

definition STLReader_ctor ::
  "(string \<Rightarrow> byte list option) \<Rightarrow> string \<Rightarrow> string \<times> (exn + STLReader)" where
  "STLReader_ctor fs path =
     (case fs path of
        None \<Rightarrow>
          (cannot_open_message path, Inr \<lparr>stl_header = [], stl_polygons = [], valid = False\<rparr>)
      | Some bytes \<Rightarrow>
          ([],
           case stream_read \<lparr>buf = bytes, eofbit = False\<rparr> 80 of
             Inl e \<Rightarrow> Inl e
           | Inr (hdr, s1) \<Rightarrow>
               (case stream_read s1 4 of
                  Inl e \<Rightarrow> Inl e
                | Inr (size_bytes, s2) \<Rightarrow>
                    (case read_polygons (unat (le32 size_bytes)) s2 of
                       Inl e \<Rightarrow> Inl e
                     | Inr (polys, s3) \<Rightarrow>
                         Inr \<lparr>stl_header = hdr, stl_polygons = polys, valid = True\<rparr>))))"

text \<open>\<^verbatim>\<open>explicit operator bool() const noexcept\<close>\<close>

definition operator_bool :: "STLReader \<Rightarrow> bool" where
  "operator_bool r = valid r"

text \<open>A file system that holds one file.\<close>

definition one_file :: "string \<Rightarrow> byte list \<Rightarrow> string \<Rightarrow> byte list option" where
  "one_file name bytes path = (if path = name then Some bytes else None)"

section \<open>The file layout as the specification words it\<close>

text \<open>
  A record is 50 bytes: twelve little-endian binary32 values (the normal, then the
  vertices a, b, c) and two attribute bytes that are not stored. Record \<open>i\<close> of a file
  starts at offset \<open>84 + 50 * i\<close>.
\<close>

definition float_at :: "byte list \<Rightarrow> nat \<Rightarrow> float" where
  "float_at rec i = le32 (take 4 (drop (4 * i) rec))"

definition vector_at :: "byte list \<Rightarrow> nat \<Rightarrow> STLVector" where
  "vector_at rec i = STLVector (float_at rec i) (float_at rec (i + 1)) (float_at rec (i + 2))"

definition decode_record :: "byte list \<Rightarrow> STLPolygon" where
  "decode_record rec =
     STLPolygon (vector_at rec 0) (vector_at rec 3) (vector_at rec 6) (vector_at rec 9)"

definition record_at :: "byte list \<Rightarrow> nat \<Rightarrow> byte list" where
  "record_at bytes i = take 50 (drop (84 + 50 * i) bytes)"

definition declared_count :: "byte list \<Rightarrow> nat" where
  "declared_count bytes = unat (le32 (take 4 (drop 80 bytes)))"

text \<open>
  Serialising a synthetic mesh: the header, the count, and for every triangle its twelve
  floats followed by two attribute bytes of the writer's choice.
\<close>

definition encode_le32 :: "32 word \<Rightarrow> byte list" where
  "encode_le32 w = [ucast w, ucast (drop_bit 8 w), ucast (drop_bit 16 w), ucast (drop_bit 24 w)]"

fun encode_vector :: "STLVector \<Rightarrow> byte list" where
  "encode_vector (STLVector x y z) = encode_le32 x @ encode_le32 y @ encode_le32 z"

fun encode_record :: "STLPolygon \<times> byte \<times> byte \<Rightarrow> byte list" where
  "encode_record (STLPolygon normal a b c, attr0, attr1) =
     encode_vector normal @ encode_vector a @ encode_vector b @ encode_vector c @ [attr0, attr1]"

definition serialize :: "byte list \<Rightarrow> (STLPolygon \<times> byte \<times> byte) list \<Rightarrow> byte list" where
  "serialize hdr recs =
     hdr @ encode_le32 (word_of_nat (length recs)) @ concat (map encode_record recs)"

section \<open>Single-precision arithmetic\<close>

text \<open>
  The slicer computes in \<^verbatim>\<open>float\<close>. The operations below are IEEE-754 binary32 with the
  default rounding (to nearest, ties to even) and the default non-trapping handling of
  exceptional operands: every operation returns a value on every pair of bit patterns.
  Each C++ operator is one rounded operation (no fused multiply-add, no wider
  intermediate format). An operation that produces a NaN yields the quiet NaN
  \<open>0x7FC00000\<close>; which NaN the hardware yields differs between platforms, and no result
  below depends on that choice.
\<close>

text \<open>Fields of the bit pattern: sign, biased exponent, fraction.\<close>

definition f_sign :: "float \<Rightarrow> bool" where
  "f_sign w = bit w 31"

definition f_expo :: "float \<Rightarrow> nat" where
  "f_expo w = unat (take_bit 8 (drop_bit 23 w))"

definition f_frac :: "float \<Rightarrow> nat" where
  "f_frac w = unat (take_bit 23 w)"

definition is_nan :: "float \<Rightarrow> bool" where
  "is_nan w = (f_expo w = 255 \<and> f_frac w \<noteq> 0)"

definition is_inf :: "float \<Rightarrow> bool" where
  "is_inf w = (f_expo w = 255 \<and> f_frac w = 0)"

definition is_zero :: "float \<Rightarrow> bool" where
  "is_zero w = (f_expo w = 0 \<and> f_frac w = 0)"

text \<open>A finite pattern denotes \<open>\<plusminus> f_mant * 2 ^ f_exp2\<close>.\<close>

definition f_mant :: "float \<Rightarrow> nat" where
  "f_mant w = (if f_expo w = 0 then f_frac w else 2 ^ 23 + f_frac w)"

definition f_exp2 :: "float \<Rightarrow> int" where
  "f_exp2 w = (if f_expo w = 0 then 1 else int (f_expo w)) - 150"

definition f_sint :: "float \<Rightarrow> int" where
  "f_sint w = (if f_sign w then - int (f_mant w) else int (f_mant w))"

definition f_qnan :: float where
  "f_qnan = 0x7FC00000"

definition f_inf :: "bool \<Rightarrow> float" where
  "f_inf s = (if s then 0xFF800000 else 0x7F800000)"

definition f_zero :: "bool \<Rightarrow> float" where
  "f_zero s = (if s then 0x80000000 else 0)"

text \<open>
  Rounding of the positive rational \<open>num / den\<close>: \<open>ilog2_quot\<close> is the floor of its binary
  logarithm, the quantum is \<open>2 ^ (e - 23)\<close> with \<open>e\<close> no smaller than the least normal
  exponent, and the multiple of the quantum nearest to the value (the even one on a tie)
  is packed under the exponent field; a carry out of the fraction moves into the exponent,
  and a result beyond the largest finite pattern is an infinity.
\<close>

fun bitlen :: "nat \<Rightarrow> nat" where
  "bitlen n = (if n = 0 then 0 else 1 + bitlen (n div 2))"

declare bitlen.simps [simp del]

definition ilog2_adjust :: "int \<Rightarrow> nat \<Rightarrow> nat \<Rightarrow> int" where
  "ilog2_adjust e0 num den =
     (if den * 2 ^ nat e0 \<le> num * 2 ^ nat (- e0) then e0 else e0 - 1)"

definition ilog2_quot :: "nat \<Rightarrow> nat \<Rightarrow> int" where
  "ilog2_quot num den = ilog2_adjust (int (bitlen num) - int (bitlen den)) num den"

definition round_even :: "nat \<Rightarrow> nat \<Rightarrow> nat \<Rightarrow> nat" where
  "round_even n r D = (if 2 * r < D \<or> (2 * r = D \<and> even n) then n else n + 1)"

definition f_pack :: "bool \<Rightarrow> nat \<Rightarrow> float" where
  "f_pack s bits =
     (if 0x7F800000 \<le> bits then f_inf s
      else word_of_nat ((if s then 2 ^ 31 else 0) + bits))"

definition fround_quantum :: "bool \<Rightarrow> int \<Rightarrow> nat \<Rightarrow> nat \<Rightarrow> float" where
  "fround_quantum s e N D =
     f_pack s (nat (e + 126) * 2 ^ 23 + round_even (N div D) (N mod D) D)"

definition fround_at :: "bool \<Rightarrow> int \<Rightarrow> nat \<Rightarrow> nat \<Rightarrow> float" where
  "fround_at s e num den =
     fround_quantum s e (num * 2 ^ nat (23 - e)) (den * 2 ^ nat (e - 23))"

definition fround :: "bool \<Rightarrow> nat \<Rightarrow> nat \<Rightarrow> float" where
  "fround s num den = fround_at s (max (ilog2_quot num den) (- 126)) num den"

definition fround_dyadic :: "bool \<Rightarrow> nat \<Rightarrow> int \<Rightarrow> float" where
  "fround_dyadic s m e = fround s (m * 2 ^ nat e) (2 ^ nat (- e))"

text \<open>Unary minus flips the sign bit.\<close>

definition fneg :: "float \<Rightarrow> float" where
  "fneg x = x XOR 0x80000000"

definition fadd_aligned :: "int \<Rightarrow> int \<Rightarrow> float" where
  "fadd_aligned m e = fround_dyadic (m < 0) (nat \<bar>m\<bar>) e"

definition fadd_finite :: "int \<Rightarrow> int \<Rightarrow> int \<Rightarrow> int \<Rightarrow> float" where
  "fadd_finite mx ex my ey =
     (if mx * 2 ^ nat (ex - ey) + my * 2 ^ nat (ey - ex) = 0 then f_zero False
      else fadd_aligned (mx * 2 ^ nat (ex - ey) + my * 2 ^ nat (ey - ex)) (min ex ey))"

definition fadd :: "float \<Rightarrow> float \<Rightarrow> float" where
  "fadd x y =
     (if is_nan x \<or> is_nan y then f_qnan
      else if is_inf x then (if is_inf y \<and> f_sign x \<noteq> f_sign y then f_qnan else x)
      else if is_inf y then y
      else if is_zero x \<and> is_zero y then f_zero (f_sign x \<and> f_sign y)
      else if is_zero y then x
      else if is_zero x then y
      else fadd_finite (f_sint x) (f_exp2 x) (f_sint y) (f_exp2 y))"

definition fsub :: "float \<Rightarrow> float \<Rightarrow> float" where
  "fsub x y = fadd x (fneg y)"

definition fmul :: "float \<Rightarrow> float \<Rightarrow> float" where
  "fmul x y =
     (if is_nan x \<or> is_nan y then f_qnan
      else if is_inf x \<or> is_inf y then
        (if is_zero x \<or> is_zero y then f_qnan else f_inf (f_sign x \<noteq> f_sign y))
      else if is_zero x \<or> is_zero y then f_zero (f_sign x \<noteq> f_sign y)
      else fround_dyadic (f_sign x \<noteq> f_sign y) (f_mant x * f_mant y) (f_exp2 x + f_exp2 y))"

definition fdiv :: "float \<Rightarrow> float \<Rightarrow> float" where
  "fdiv x y =
     (if is_nan x \<or> is_nan y then f_qnan
      else if is_inf x then (if is_inf y then f_qnan else f_inf (f_sign x \<noteq> f_sign y))
      else if is_inf y then f_zero (f_sign x \<noteq> f_sign y)
      else if is_zero y then (if is_zero x then f_qnan else f_inf (f_sign x \<noteq> f_sign y))
      else if is_zero x then f_zero (f_sign x \<noteq> f_sign y)
      else fround (f_sign x \<noteq> f_sign y)
             (f_mant x * 2 ^ nat (f_exp2 x - f_exp2 y))
             (f_mant y * 2 ^ nat (f_exp2 y - f_exp2 x)))"

text \<open>Comparisons: false when an operand is a NaN; the two zeros are equal.\<close>

definition f_key :: "float \<Rightarrow> int" where
  "f_key w = (if f_sign w then - int (unat (take_bit 31 w)) else int (unat (take_bit 31 w)))"

definition fle :: "float \<Rightarrow> float \<Rightarrow> bool" where
  "fle x y = (\<not> is_nan x \<and> \<not> is_nan y \<and> f_key x \<le> f_key y)"

definition flt :: "float \<Rightarrow> float \<Rightarrow> bool" where
  "flt x y = (\<not> is_nan x \<and> \<not> is_nan y \<and> f_key x < f_key y)"

text \<open>The \<^verbatim>\<open>int\<close> literals \<open>0\<close> and \<open>1\<close> converted to \<^verbatim>\<open>float\<close>.\<close>

definition f_0 :: float where
  "f_0 = 0"

definition f_1 :: float where
  "f_1 = 0x3F800000"

section \<open>The slicer\<close>

text \<open>
  \<^verbatim>\<open>internal::segment_plane_intersection\<close>: the operators associate to the left, and
  the unary minus applies to the numerator before the division.
\<close>

fun segment_plane_intersection ::
  "STLSegment \<Rightarrow> float \<Rightarrow> float \<Rightarrow> float \<Rightarrow> float \<Rightarrow> float" where
  "segment_plane_intersection (STLSegment (STLVector x1 y1 z1) (STLVector x2 y2 z2)) a b c d =
     fdiv (fneg (fadd (fadd (fadd (fmul a x1) (fmul b y1)) (fmul c z1)) d))
          (fadd (fadd (fmul a (fsub x2 x1)) (fmul b (fsub y2 y1))) (fmul c (fsub z2 z1)))"

text \<open>\<^verbatim>\<open>internal::point_on_line\<close>\<close>

fun point_on_line :: "STLSegment \<Rightarrow> float \<Rightarrow> STLVector" where
  "point_on_line (STLSegment (STLVector x1 y1 z1) (STLVector x2 y2 z2)) t =
     STLVector (fadd (fmul (fsub f_1 t) x1) (fmul t x2))
               (fadd (fmul (fsub f_1 t) y1) (fmul t y2))
               (fadd (fmul (fsub f_1 t) z1) (fmul t z2))"

text \<open>The if-chain of the loop body, on the three parameters \<open>s\<close>, \<open>t\<close>, \<open>u\<close>.\<close>

definition slice_branch ::
  "STLSegment list \<Rightarrow> STLVector \<Rightarrow> STLVector \<Rightarrow> STLVector \<Rightarrow> float \<Rightarrow> float \<Rightarrow> float
     \<Rightarrow> STLSegment list" where
  "slice_branch res p q r s t u =
     (if fle f_0 s \<and> flt s f_1 \<and> fle f_0 t \<and> flt t f_1 then
        res @ [STLSegment (point_on_line (STLSegment p q) s) (point_on_line (STLSegment q r) t)]
      else if fle f_0 t \<and> flt t f_1 \<and> fle f_0 u \<and> flt u f_1 then
        res @ [STLSegment (point_on_line (STLSegment q r) t) (point_on_line (STLSegment r p) u)]
      else if fle f_0 u \<and> flt u f_1 \<and> fle f_0 s \<and> flt s f_1 then
        res @ [STLSegment (point_on_line (STLSegment r p) u) (point_on_line (STLSegment p q) s)]
      else res)"

text \<open>One pass of the loop: the polygon is taken apart as \<open>[ignore, p, q, r]\<close>.\<close>

fun slice_body ::
  "STLSegment list \<Rightarrow> STLPolygon \<Rightarrow> float \<Rightarrow> float \<Rightarrow> float \<Rightarrow> float \<Rightarrow> STLSegment list" where
  "slice_body res (STLPolygon ignore p q r) a b c d =
     slice_branch res p q r
       (segment_plane_intersection (STLSegment p q) a b c d)
       (segment_plane_intersection (STLSegment q r) a b c d)
       (segment_plane_intersection (STLSegment r p) a b c d)"

text \<open>The range-for over \<open>polygons\<close>, with \<open>res\<close> as the vector under construction.\<close>

fun slice_loop ::
  "STLSegment list \<Rightarrow> STLPolygon list \<Rightarrow> float \<Rightarrow> float \<Rightarrow> float \<Rightarrow> float
     \<Rightarrow> STLSegment list" where
  "slice_loop res [] a b c d = res"
| "slice_loop res (poly # polygons) a b c d =
     slice_loop (slice_body res poly a b c d) polygons a b c d"

definition slice_polygons_at ::
  "STLPolygon list \<Rightarrow> float \<Rightarrow> float \<Rightarrow> float \<Rightarrow> float \<Rightarrow> STLSegment list" where
  "slice_polygons_at polygons a b c d = slice_loop [] polygons a b c d"

definition slice_polygons_at_x :: "STLPolygon list \<Rightarrow> float \<Rightarrow> STLSegment list" where
  "slice_polygons_at_x polygons x = slice_polygons_at polygons f_1 f_0 f_0 (fneg x)"

definition slice_polygons_at_y :: "STLPolygon list \<Rightarrow> float \<Rightarrow> STLSegment list" where
  "slice_polygons_at_y polygons y = slice_polygons_at polygons f_0 f_1 f_0 (fneg y)"

definition slice_polygons_at_z :: "STLPolygon list \<Rightarrow> float \<Rightarrow> STLSegment list" where
  "slice_polygons_at_z polygons z = slice_polygons_at polygons f_0 f_0 f_1 (fneg z)"

section \<open>The algorithm as the specification words it\<close>

text \<open>An edge crosses when its parameter lies in the half-open interval from 0 to 1.\<close>

definition crosses :: "float \<Rightarrow> bool" where
  "crosses t = (fle f_0 t \<and> flt t f_1)"

text \<open>The parameter of the edge from \<open>(x1, y1, z1)\<close> to \<open>(x2, y2, z2)\<close>.\<close>

fun edge_parameter ::
  "STLVector \<times> STLVector \<Rightarrow> float \<Rightarrow> float \<Rightarrow> float \<Rightarrow> float \<Rightarrow> float" where
  "edge_parameter (STLVector x1 y1 z1, STLVector x2 y2 z2) a b c d =
     fdiv (fneg (fadd (fadd (fadd (fmul a x1) (fmul b y1)) (fmul c z1)) d))
          (fadd (fadd (fmul a (fsub x2 x1)) (fmul b (fsub y2 y1))) (fmul c (fsub z2 z1)))"

text \<open>Numerator (before negation) and denominator of the parameter.\<close>

fun plane_value :: "STLVector \<Rightarrow> float \<Rightarrow> float \<Rightarrow> float \<Rightarrow> float \<Rightarrow> float" where
  "plane_value (STLVector x y z) a b c d = fadd (fadd (fadd (fmul a x) (fmul b y)) (fmul c z)) d"

fun edge_denominator :: "STLVector \<times> STLVector \<Rightarrow> float \<Rightarrow> float \<Rightarrow> float \<Rightarrow> float" where
  "edge_denominator (STLVector x1 y1 z1, STLVector x2 y2 z2) a b c =
     fadd (fadd (fmul a (fsub x2 x1)) (fmul b (fsub y2 y1))) (fmul c (fsub z2 z1))"


text \<open>The point \<open>(1 - t) * start + t * end\<close>.\<close>

fun interpolate :: "STLVector \<times> STLVector \<Rightarrow> float \<Rightarrow> STLVector" where
  "interpolate (STLVector x1 y1 z1, STLVector x2 y2 z2) t =
     STLVector (fadd (fmul (fsub f_1 t) x1) (fmul t x2))
               (fadd (fmul (fsub f_1 t) y1) (fmul t y2))
               (fadd (fmul (fsub f_1 t) z1) (fmul t z2))"

text \<open>The three pairs of edges in their priority order.\<close>

definition edge_pairs ::
  "STLVector \<Rightarrow> STLVector \<Rightarrow> STLVector
     \<Rightarrow> ((STLVector \<times> STLVector) \<times> (STLVector \<times> STLVector)) list" where
  "edge_pairs p q r = [((p, q), (q, r)), ((q, r), (r, p)), ((r, p), (p, q))]"

text \<open>The first pair whose two edges both cross gives the segment; otherwise nothing.\<close>

definition triangle_segments ::
  "STLPolygon \<Rightarrow> float \<Rightarrow> float \<Rightarrow> float \<Rightarrow> float \<Rightarrow> STLSegment list" where
  "triangle_segments poly a b c d =
     (case find (\<lambda>(e1, e2). crosses (edge_parameter e1 a b c d) \<and> crosses (edge_parameter e2 a b c d))
             (edge_pairs (poly_a poly) (poly_b poly) (poly_c poly)) of
        None \<Rightarrow> []
      | Some (e1, e2) \<Rightarrow>
          [STLSegment (interpolate e1 (edge_parameter e1 a b c d))
                      (interpolate e2 (edge_parameter e2 a b c d))])"

text \<open>
  Two floats are the same number when their bit patterns agree or both are zeros (of
  either sign); a float is finite when it is neither a NaN nor an infinity.
\<close>

definition same_number :: "float \<Rightarrow> float \<Rightarrow> bool" where
  "same_number x y = (x = y \<or> (is_zero x \<and> is_zero y))"

fun same_point :: "STLVector \<Rightarrow> STLVector \<Rightarrow> bool" where
  "same_point (STLVector x1 y1 z1) (STLVector x2 y2 z2) =
     (same_number x1 x2 \<and> same_number y1 y2 \<and> same_number z1 z2)"

definition is_finite :: "float \<Rightarrow> bool" where
  "is_finite x = (\<not> is_nan x \<and> \<not> is_inf x)"

fun finite_vector :: "STLVector \<Rightarrow> bool" where
  "finite_vector (STLVector x y z) = (is_finite x \<and> is_finite y \<and> is_finite z)"

fun number_vector :: "STLVector \<Rightarrow> bool" where
  "number_vector (STLVector x y z) = (\<not> is_nan x \<and> \<not> is_nan y \<and> \<not> is_nan z)"

section \<open>Evaluation rules\<close>

lemma bitlen_0: "bitlen 0 = 0" by (simp add: bitlen.simps)
lemma bitlen_1: "bitlen 1 = 1" by (simp add: bitlen.simps)
lemma bitlen_numeral:
  "bitlen (numeral Num.One) = 1"
  "bitlen (numeral (Num.Bit0 k)) = 1 + bitlen (numeral k)"
  "bitlen (numeral (Num.Bit1 k)) = 1 + bitlen (numeral k)"
  by (subst bitlen.simps, simp)+

lemmas float_eval = fadd_def fsub_def fmul_def fdiv_def fneg_def fround_def fround_at_def fround_quantum_def
  f_pack_def round_even_def ilog2_quot_def ilog2_adjust_def fround_dyadic_def fadd_aligned_def fadd_finite_def
  is_nan_def is_inf_def is_zero_def fle_def flt_def f_key_def
  f_expo_def f_frac_def f_sign_def f_mant_def f_exp2_def f_sint_def f_qnan_def f_inf_def f_zero_def
  bitlen_0 bitlen_1 bitlen_numeral

section \<open>Reading records\<close>

lemma read_float_ok:
  "4 \<le> length bs \<Longrightarrow>
   read_float \<lparr>buf = bs, eofbit = False\<rparr> = Inr (le32 (take 4 bs), \<lparr>buf = drop 4 bs, eofbit = False\<rparr>)"
  by (simp add: read_float_def stream_read_def)


lemma read_float_eof: "read_float \<lparr>buf = bs, eofbit = True\<rparr> = Inl ios_failure"
  by (simp add: read_float_def stream_read_def)

lemma read_vector_ok:
  assumes "12 \<le> length bs"
  shows "read_vector \<lparr>buf = bs, eofbit = False\<rparr>
         = Inr (vector_at bs 0, \<lparr>buf = drop 12 bs, eofbit = False\<rparr>)"
  using assms by (simp add: read_vector_def read_float_ok vector_at_def float_at_def)


lemma read_vector_eof: "read_vector \<lparr>buf = bs, eofbit = True\<rparr> = Inl ios_failure"
  by (simp add: read_vector_def read_float_eof)

lemma vector_at_drop: "vector_at (drop (4 * k) bs) i = vector_at bs (i + k)"
  by (simp add: vector_at_def float_at_def add.commute add.left_commute distrib_left)

lemma read_polygon_vectors:
  assumes "48 \<le> length bs"
  shows "read_polygon \<lparr>buf = bs, eofbit = False\<rparr>
         = (case stream_ignore \<lparr>buf = drop 48 bs, eofbit = False\<rparr> 2 of
              Inl e \<Rightarrow> Inl e
            | Inr s \<Rightarrow> Inr (decode_record bs, s))"
proof -
  have v: "vector_at (drop 12 bs) 0 = vector_at bs 3" "vector_at (drop 24 bs) 0 = vector_at bs 6"
    "vector_at (drop 36 bs) 0 = vector_at bs 9"
    using vector_at_drop [of 3 bs 0] vector_at_drop [of 6 bs 0] vector_at_drop [of 9 bs 0]
    by simp_all
  show ?thesis
    using assms by (simp add: read_polygon_def read_vector_ok v decode_record_def cong: sum.case_cong)
qed

lemma read_polygon_ok:
  assumes "50 \<le> length bs"
  shows "read_polygon \<lparr>buf = bs, eofbit = False\<rparr>
         = Inr (decode_record bs, \<lparr>buf = drop 50 bs, eofbit = False\<rparr>)"
  using assms by (simp add: read_polygon_vectors stream_ignore_def)



lemma read_polygon_eof: "read_polygon \<lparr>buf = bs, eofbit = True\<rparr> = Inl ios_failure"
  by (simp add: read_polygon_def read_vector_eof)

lemma read_polygons_eof:
  "read_polygons (Suc n) \<lparr>buf = bs, eofbit = True\<rparr> = Inl ios_failure"
  by (simp add: read_polygon_eof)

lemma read_polygons_ok:
  "50 * n \<le> length bs \<Longrightarrow>
   read_polygons n \<lparr>buf = bs, eofbit = False\<rparr>
   = Inr (map (\<lambda>i. decode_record (drop (50 * i) bs)) [0..<n],
          \<lparr>buf = drop (50 * n) bs, eofbit = False\<rparr>)"
proof (induction n arbitrary: bs)
  case 0
  show ?case by simp
next
  case (Suc n)
  from Suc.prems have len: "50 \<le> length bs" "50 * n \<le> length (drop 50 bs)"
    by simp_all
  have idx: "[0..<Suc n] = 0 # map Suc [0..<n]"
    by (simp add: upt_conv_Cons map_Suc_upt del: upt_Suc)
  show ?case
    unfolding idx
    by (simp add: read_polygon_ok [OF len(1)] Suc.IH [OF len(2)] add.commute o_def del: upt_Suc)
qed


section \<open>Encoding and decoding\<close>

lemma bytes_of_nat:
  fixes n :: nat
  assumes "n < 2 ^ 32"
  shows "n mod 256 + 256 * (n div 256 mod 256 + 256 * (n div 65536 mod 256 + 256 * (n div 16777216 mod 256))) = n"
proof -
  have split: "m mod 256 + 256 * (m div 256) = m" for m :: nat
    by simp
  have d2: "n div 256 div 256 = n div 65536"
    by (simp add: div_mult2_eq [symmetric])
  have d3: "n div 65536 div 256 = n div 16777216"
    by (simp add: div_mult2_eq [symmetric])
  have top: "n div 16777216 mod 256 = n div 16777216"
    using assms by (simp add: less_mult_imp_div_less)
  have "n div 65536 mod 256 + 256 * (n div 16777216 mod 256) = n div 65536"
    using split [of "n div 65536"] by (simp only: d3 top)
  then have "n div 256 mod 256 + 256 * (n div 65536 mod 256 + 256 * (n div 16777216 mod 256))
             = n div 256"
    using split [of "n div 256"] by (simp only: d2)
  then show ?thesis
    using split [of n] by (simp only:)
qed

lemma unat_byte: "unat (ucast (drop_bit k (w :: 32 word)) :: byte) = unat w div 2 ^ k mod 256"
  by (simp only: unsigned_ucast_eq unat_drop_bit_eq) (simp add: take_bit_eq_mod drop_bit_eq_div)

lemma le32_encode_le32: "le32 (encode_le32 w) = w"
proof -
  have "unat w < 2 ^ 32"
    using unsigned_less [of w, where 'a = nat] by simp
  from bytes_of_nat [OF this] show ?thesis
    using unat_byte [of 0 w] unat_byte [of 8 w] unat_byte [of 16 w] unat_byte [of 24 w]
    by (simp add: le32_def encode_le32_def)
qed

lemma length_encode_le32: "length (encode_le32 w) = 4"
  by (simp add: encode_le32_def)

lemma length_encode_vector: "length (encode_vector v) = 12"
  by (cases v) (simp add: length_encode_le32)

lemma vector_at_encode_vector: "vector_at (encode_vector v @ rest) 0 = v"
  by (cases v) (simp add: vector_at_def float_at_def length_encode_le32 le32_encode_le32)

lemma vector_at_skip:
  "length pre = 4 * k \<Longrightarrow> vector_at (pre @ rest) k = vector_at rest 0"
  using vector_at_drop [of k "pre @ rest" 0] by simp

lemma length_encode_record: "length (encode_record r) = 50"
proof -
  obtain poly attr0 attr1 where r: "r = (poly, attr0, attr1)" by (cases r)
  show ?thesis unfolding r by (cases poly) (simp add: length_encode_vector)
qed

lemma decode_record_encode_record: "decode_record (encode_record r @ rest) = fst r"
proof -
  obtain poly attr0 attr1 where r: "r = (poly, attr0, attr1)" by (cases r)
  obtain n a b c where poly: "poly = STLPolygon n a b c" by (cases poly)
  have 0: "vector_at (encode_vector n @ encode_vector a @ encode_vector b @ encode_vector c
             @ attr0 # attr1 # rest) 0 = n"
    by (rule vector_at_encode_vector)
  have 3: "vector_at (encode_vector n @ encode_vector a @ encode_vector b @ encode_vector c
             @ attr0 # attr1 # rest) 3 = a"
    using vector_at_skip [of "encode_vector n" 3]
    by (simp add: length_encode_vector vector_at_encode_vector)
  have 6: "vector_at (encode_vector n @ encode_vector a @ encode_vector b @ encode_vector c
             @ attr0 # attr1 # rest) 6 = b"
    using vector_at_skip [of "encode_vector n @ encode_vector a" 6]
    by (simp add: length_encode_vector vector_at_encode_vector)
  have 9: "vector_at (encode_vector n @ encode_vector a @ encode_vector b @ encode_vector c
             @ attr0 # attr1 # rest) 9 = c"
    using vector_at_skip [of "encode_vector n @ encode_vector a @ encode_vector b" 9]
    by (simp add: length_encode_vector vector_at_encode_vector)
  show ?thesis
    by (simp add: r poly decode_record_def 0 3 6 9)
qed

lemma read_polygons_serialized:
  "read_polygons (length recs) \<lparr>buf = concat (map encode_record recs) @ extra, eofbit = False\<rparr>
   = Inr (map fst recs, \<lparr>buf = extra, eofbit = False\<rparr>)"
proof (induction recs)
  case Nil
  show ?case by simp
next
  case (Cons r recs)
  have "50 \<le> length (encode_record r @ concat (map encode_record recs) @ extra)"
    by (simp add: length_encode_record)
  from read_polygon_ok [OF this] Cons.IH show ?case
    by (simp add: length_encode_record decode_record_encode_record)
qed

lemma decode_record_take: "decode_record (take 50 bs) = decode_record bs"
  by (simp add: decode_record_def vector_at_def float_at_def drop_take min_def)

lemma STLReader_ctor_well_formed:
  assumes "fs path = Some bytes" "84 + 50 * declared_count bytes \<le> length bytes"
  shows "STLReader_ctor fs path
         = ([], Inr \<lparr>stl_header = take 80 bytes,
                      stl_polygons = map (\<lambda>i. decode_record (record_at bytes i))
                                         [0..<declared_count bytes],
                      valid = True\<rparr>)"
proof -
  have "50 * declared_count bytes \<le> length (drop 84 bytes)"
    using assms(2) by simp
  from read_polygons_ok [OF this] show ?thesis
    using assms
    by (simp add: STLReader_ctor_def stream_read_def declared_count_def record_at_def
        decode_record_take add.commute)
qed

lemma STLReader_ctor_serialized:
  assumes "fs path = Some (serialize hdr recs @ extra)" "length hdr = 80" "length recs < 2 ^ 32"
  shows "STLReader_ctor fs path
         = ([], Inr \<lparr>stl_header = hdr, stl_polygons = map fst recs, valid = True\<rparr>)"
proof -
  have n: "unat (word_of_nat (length recs) :: 32 word) = length recs"
    using assms(3) by (simp add: unat_of_nat)
  show ?thesis
    using assms(1,2)
    by (simp add: STLReader_ctor_def stream_read_def serialize_def length_encode_le32
        le32_encode_le32 n read_polygons_serialized)
qed


lemma declared_count_serialize:
  assumes "length hdr = 80" "length recs < 2 ^ 32"
  shows "declared_count (serialize hdr recs @ extra) = length recs"
  using assms
  by (simp add: declared_count_def serialize_def length_encode_le32 le32_encode_le32 unat_of_nat)

lemma length_serialize: "length (serialize hdr recs) = length hdr + 4 + 50 * length recs"
proof -
  have "length (concat (map encode_record recs)) = 50 * length recs"
    by (induction recs) (simp_all add: length_encode_record)
  then show ?thesis
    by (simp add: serialize_def length_encode_le32)
qed

section \<open>Structure of the slicer\<close>

lemma slice_branch_append: "slice_branch res p q r s t u = res @ slice_branch [] p q r s t u"
  unfolding slice_branch_def
  by (simp only: append_Nil append_Nil2 if_distrib [of "\<lambda>x. res @ x"] split: if_splits)

lemma slice_body_append: "slice_body res poly a b c d = res @ slice_body [] poly a b c d"
  by (cases poly) (simp add: slice_branch_append [of res])

lemma slice_loop_append:
  "slice_loop res polygons a b c d = res @ slice_loop [] polygons a b c d"
proof (induction polygons arbitrary: res)
  case Nil
  show ?case by simp
next
  case (Cons poly polygons)
  have "slice_loop res (poly # polygons) a b c d
        = slice_body res poly a b c d @ slice_loop [] polygons a b c d"
    using Cons.IH [of "slice_body res poly a b c d"] by simp
  also have "\<dots> = res @ slice_body [] poly a b c d @ slice_loop [] polygons a b c d"
    using slice_body_append [of res poly a b c d] by simp
  also have "\<dots> = res @ slice_loop [] (poly # polygons) a b c d"
    using Cons.IH [of "slice_body [] poly a b c d"] by simp
  finally show ?case .
qed

lemma slice_polygons_at_Nil: "slice_polygons_at [] a b c d = []"
  by (simp add: slice_polygons_at_def)

lemma slice_polygons_at_Cons:
  "slice_polygons_at (poly # polygons) a b c d
   = slice_body [] poly a b c d @ slice_polygons_at polygons a b c d"
  using slice_loop_append [of "slice_body [] poly a b c d" polygons a b c d]
  by (simp add: slice_polygons_at_def)

lemma slice_polygons_at_concat:
  "slice_polygons_at polygons a b c d = concat (map (\<lambda>poly. slice_body [] poly a b c d) polygons)"
  by (induction polygons) (simp_all add: slice_polygons_at_Nil slice_polygons_at_Cons)

lemma length_slice_branch: "length (slice_branch [] p q r s t u) \<le> 1"
  unfolding slice_branch_def by (simp only: append_Nil list.size if_splits split: if_splits) simp

lemma length_slice_body: "length (slice_body [] poly a b c d) \<le> 1"
  by (cases poly) (simp add: length_slice_branch [unfolded One_nat_def])

lemma length_slice_polygons_at: "length (slice_polygons_at polygons a b c d) \<le> length polygons"
proof (induction polygons)
  case Nil
  show ?case by (simp add: slice_polygons_at_Nil)
next
  case (Cons poly polygons)
  then show ?case
    using length_slice_body [of poly a b c d] by (simp add: slice_polygons_at_Cons)
qed

lemma slice_body_triangle_segments:
  "slice_body [] poly a b c d = triangle_segments poly a b c d"
proof (cases poly)
  case (STLPolygon ignore p q r)
  obtain px py pz where p: "p = STLVector px py pz" by (cases p)
  obtain qx qy qz where q: "q = STLVector qx qy qz" by (cases q)
  obtain rx ry rz where r: "r = STLVector rx ry rz" by (cases r)
  define s where "s = segment_plane_intersection (STLSegment p q) a b c d"
  define t where "t = segment_plane_intersection (STLSegment q r) a b c d"
  define u where "u = segment_plane_intersection (STLSegment r p) a b c d"
  have es: "edge_parameter (p, q) a b c d = s" "edge_parameter (q, r) a b c d = t"
    "edge_parameter (r, p) a b c d = u"
    by (simp_all add: s_def t_def u_def p q r)
  have ps: "interpolate (p, q) s = point_on_line (STLSegment p q) s"
    "interpolate (q, r) t = point_on_line (STLSegment q r) t"
    "interpolate (r, p) u = point_on_line (STLSegment r p) u"
    by (simp_all add: p q r)
  have "triangle_segments poly a b c d = slice_branch [] p q r s t u"
    unfolding triangle_segments_def edge_pairs_def slice_branch_def STLPolygon
    by (simp only: STLPolygon.sel find.simps case_prod_conv es ps crosses_def append_Nil
        option.case split: if_splits) auto
  then show ?thesis
    by (simp add: STLPolygon s_def t_def u_def)
qed

lemma slice_body_normal: "slice_body [] (STLPolygon n p q r) a b c d = slice_body [] (STLPolygon n' p q r) a b c d"
  by simp

lemma slice_polygons_at_append:
  "slice_polygons_at (ps @ qs) a b c d = slice_polygons_at ps a b c d @ slice_polygons_at qs a b c d"
  by (simp add: slice_polygons_at_concat)

lemma slice_polygons_at_single: "slice_polygons_at [poly] a b c d = slice_body [] poly a b c d"
  by (simp add: slice_polygons_at_concat)

section \<open>Special values\<close>

lemma f_expo_fneg: "f_expo (fneg x) = f_expo x"
proof -
  have "take_bit 8 (drop_bit 23 (x XOR 0x80000000)) = take_bit 8 (drop_bit 23 x)"
    by (rule bit_word_eqI) (auto simp add: bit_simps)
  then show ?thesis by (simp add: f_expo_def fneg_def)
qed

lemma f_frac_fneg: "f_frac (fneg x) = f_frac x"
proof -
  have "take_bit 23 (x XOR 0x80000000) = take_bit 23 x"
    by (rule bit_word_eqI) (auto simp add: bit_simps)
  then show ?thesis by (simp add: f_frac_def fneg_def)
qed

lemma is_nan_fneg: "is_nan (fneg x) = is_nan x"
  by (simp add: is_nan_def f_expo_fneg f_frac_fneg)

lemma is_zero_fneg: "is_zero (fneg x) = is_zero x"
  by (simp add: is_zero_def f_expo_fneg f_frac_fneg)

lemma is_inf_fneg: "is_inf (fneg x) = is_inf x"
  by (simp add: is_inf_def f_expo_fneg f_frac_fneg)

lemma f_sign_fneg: "f_sign (fneg x) = (\<not> f_sign x)"
  by (simp add: f_sign_def fneg_def bit_simps)

lemma zero_not_nan: "is_zero x \<Longrightarrow> \<not> is_nan x"
  by (simp add: is_zero_def is_nan_def)

lemma zero_not_inf: "is_zero x \<Longrightarrow> \<not> is_inf x"
  by (simp add: is_zero_def is_inf_def)

lemma inf_not_nan: "is_inf x \<Longrightarrow> \<not> is_nan x"
  by (simp add: is_inf_def is_nan_def)

lemma class_f_qnan: "is_nan f_qnan"
  by (simp add: is_nan_def f_qnan_def f_expo_def f_frac_def)

lemma class_f_zero: "is_zero (f_zero s)"
  by (simp add: is_zero_def f_zero_def f_expo_def f_frac_def)

lemma class_f_inf: "is_inf (f_inf s)"
  by (simp add: is_inf_def f_inf_def f_expo_def f_frac_def)


lemma class_f_1: "\<not> is_nan f_1" "\<not> is_inf f_1" "\<not> is_zero f_1"
  by (simp_all add: is_nan_def is_inf_def is_zero_def f_1_def f_expo_def f_frac_def)



lemma fdiv_by_zero: "is_zero y \<Longrightarrow> is_nan (fdiv x y) \<or> is_inf (fdiv x y)"
  by (simp add: fdiv_def class_f_qnan class_f_inf zero_not_inf)




lemma slice_branch_none:
  "\<not> crosses s \<or> \<not> crosses t \<Longrightarrow> \<not> crosses t \<or> \<not> crosses u \<Longrightarrow> \<not> crosses u \<or> \<not> crosses s
   \<Longrightarrow> slice_branch res p q r s t u = res"
  unfolding slice_branch_def crosses_def by (simp only: split: if_splits) blast











section \<open>Rounding a representable value\<close>

lemma bitlen_bounds: "0 < n \<Longrightarrow> 2 ^ (bitlen n - 1) \<le> n \<and> n < 2 ^ bitlen n"
proof (induction n rule: bitlen.induct)
  case (1 n)
  show ?case
  proof (cases "n div 2 = 0")
    case True
    with "1.prems" have "n = 1" by (simp add: div_eq_0_iff) 
    then show ?thesis using bitlen_1 by simp
  next
    case False
    then have pos: "0 < n div 2" by simp
    from "1.IH" [OF _ pos] "1.prems"
    have ih: "2 ^ (bitlen (n div 2) - 1) \<le> n div 2" "n div 2 < 2 ^ bitlen (n div 2)"
      by simp_all
    have b: "bitlen n = 1 + bitlen (n div 2)"
      using "1.prems" by (subst bitlen.simps) simp
    have bpos: "0 < bitlen (n div 2)"
      using pos by (subst bitlen.simps) simp
    then have "(2::nat) ^ bitlen (n div 2) = 2 * 2 ^ (bitlen (n div 2) - 1)"
      by (cases "bitlen (n div 2)") simp_all
    with ih show ?thesis
      unfolding b by (simp, linarith)
  qed
qed

lemma bitlen_unique:
  assumes "0 < n" "2 ^ (k - 1) \<le> n" "n < 2 ^ k"
  shows "bitlen n = k"
proof -
  from bitlen_bounds [OF assms(1)]
  have lo: "2 ^ (bitlen n - 1) \<le> n" and hi: "n < 2 ^ bitlen n" by simp_all
  have kpos: "0 < k" using assms by (cases k) simp_all
  have bpos: "0 < bitlen n" using assms(1) by (subst bitlen.simps) simp
  have "(2::nat) ^ (k - 1) < 2 ^ bitlen n" using assms(2) hi by linarith
  then have 1: "k - 1 < bitlen n" by (simp add: power_strict_increasing_iff)
  have "(2::nat) ^ (bitlen n - 1) < 2 ^ k" using lo assms(3) by linarith
  then have 2: "bitlen n - 1 < k" by (simp add: power_strict_increasing_iff)
  from 1 2 kpos bpos show ?thesis by linarith
qed

lemma bitlen_mult_power2: "0 < n \<Longrightarrow> bitlen (n * 2 ^ k) = bitlen n + k"
proof -
  assume pos: "0 < n"
  from bitlen_bounds [OF pos]
  have lo: "2 ^ (bitlen n - 1) \<le> n" and hi: "n < 2 ^ bitlen n" by simp_all
  have bpos: "0 < bitlen n" using pos by (subst bitlen.simps) simp
  have "2 ^ (bitlen n - 1) * 2 ^ k \<le> n * 2 ^ k" using lo by simp
  then have a: "2 ^ (bitlen n + k - 1) \<le> n * 2 ^ k"
    using bpos by (simp add: power_add [symmetric])
  have "n * 2 ^ k < 2 ^ bitlen n * 2 ^ k" using hi by simp
  then have b: "n * 2 ^ k < 2 ^ (bitlen n + k)"
    by (simp add: power_add)
  from pos have "0 < n * 2 ^ k" by simp
  from bitlen_unique [OF this a b] show ?thesis .
qed

lemma bitlen_Suc_0: "bitlen (Suc 0) = Suc 0"
  using bitlen_1 by simp

lemma bitlen_power2: "bitlen (2 ^ k) = k + 1"
  using bitlen_mult_power2 [of 1 k] by (simp add: bitlen_Suc_0)

text \<open>Rounding a value that is a multiple of its quantum returns it unchanged.\<close>

lemma fround_exact:
  fixes M k1 k2 :: nat and E :: int
  assumes M: "0 < M" "M < 2 ^ 24"
    and norm: "2 ^ 23 \<le> M \<or> E = - 149"
    and E: "- 149 \<le> E"
    and k: "int k1 - int k2 = E"
  shows "fround s (M * 2 ^ k1) (2 ^ k2) = f_pack s (nat (E + 149) * 2 ^ 23 + M)"
proof -
  define L where "L = bitlen M"
  from bitlen_bounds [OF M(1)] have lo: "2 ^ (L - 1) \<le> M" and hi: "M < 2 ^ L"
    by (simp_all add: L_def)
  have Lpos: "0 < L" using M(1) unfolding L_def by (subst bitlen.simps) simp
  have L24: "L \<le> 24"
  proof (rule ccontr)
    assume "\<not> L \<le> 24"
    then have "24 \<le> L - 1" by simp
    then have "(2::nat) ^ 24 \<le> 2 ^ (L - 1)" by (rule power_increasing) simp
    with lo M(2) show False by linarith
  qed
  define e0 where "e0 = int L + E - 1"
  have e0: "int (bitlen (M * 2 ^ k1)) - int (bitlen ((2::nat) ^ k2)) = e0"
    using k by (simp add: bitlen_mult_power2 [OF M(1)] bitlen_power2 L_def e0_def)
  have expo: "k2 + nat e0 = (L - 1) + (k1 + nat (- e0))"
    using k Lpos unfolding e0_def by linarith
  have "(2::nat) ^ k2 * 2 ^ nat e0 = 2 ^ (L - 1) * 2 ^ (k1 + nat (- e0))"
    by (simp only: power_add [symmetric] expo)
  also have "\<dots> \<le> M * 2 ^ (k1 + nat (- e0))"
    using lo by simp
  finally have cond: "(2::nat) ^ k2 * 2 ^ nat e0 \<le> M * 2 ^ k1 * 2 ^ nat (- e0)"
    by (simp add: power_add mult.assoc)
  have ilog: "ilog2_quot (M * 2 ^ k1) (2 ^ k2) = e0"
    using cond by (simp only: ilog2_quot_def e0 ilog2_adjust_def if_True)
  have emax: "max e0 (- 126) = E + 23"
  proof (cases "2 ^ 23 \<le> M")
    case True
    have "L = 24"
      unfolding L_def by (rule bitlen_unique [OF M(1)]) (use True M(2) in simp_all)
    with E show ?thesis by (simp add: e0_def)
  next
    case False
    with norm have sub: "E = - 149" by simp
    from False have "M < 2 ^ 23" by simp
    have "L \<le> 23"
    proof (rule ccontr)
      assume "\<not> L \<le> 23"
      then have "23 \<le> L - 1" by simp
      then have "(2::nat) ^ 23 \<le> 2 ^ (L - 1)" by (rule power_increasing) simp
      with lo \<open>M < 2 ^ 23\<close> show False by linarith
    qed
    with sub show ?thesis by (simp add: e0_def)
  qed
  have shift: "k1 + nat (- E) = k2 + nat E"
    using k by linarith
  have N: "M * 2 ^ k1 * 2 ^ nat (23 - (E + 23)) = M * 2 ^ (k2 + nat E)"
    using shift by (simp add: power_add [symmetric] mult.assoc)
  have D: "(2::nat) ^ k2 * 2 ^ nat (E + 23 - 23) = 2 ^ (k2 + nat E)"
    by (simp add: power_add)
  have q: "M * 2 ^ (k2 + nat E) div 2 ^ (k2 + nat E) = M"
    "M * 2 ^ (k2 + nat E) mod 2 ^ (k2 + nat E) = 0"
    by simp_all
  have r: "round_even M 0 (2 ^ (k2 + nat E)) = M"
    by (simp add: round_even_def)
  have e126: "nat (E + 23 + 126) = nat (E + 149)"
    by simp
  show ?thesis
    by (simp only: fround_def ilog emax fround_at_def N D fround_quantum_def q r e126)
qed

lemma f_frac_mod: "f_frac x = unat x mod 2 ^ 23"
  by (simp only: f_frac_def unsigned_take_bit_eq) (simp add: take_bit_eq_mod)

lemma f_expo_div: "f_expo x = unat x div 2 ^ 23 mod 256"
  by (simp only: f_expo_def unsigned_take_bit_eq unat_drop_bit_eq)
     (simp add: take_bit_eq_mod drop_bit_eq_div)

lemma f_sign_div: "f_sign x = (unat x div 2 ^ 31 = 1)"
proof -
  have "unat x < 2 ^ 32"
    using unsigned_less [of x, where 'a = nat] by simp
  then have "unat x div 2 ^ 31 < 2"
    by (simp add: less_mult_imp_div_less)
  moreover have "f_sign x = odd (unat x div 2 ^ 31)"
  proof -
    have "bit x 31 = bit (unat x) 31"
      by (simp add: bit_unsigned_iff)
    also have "\<dots> = odd (unat x div 2 ^ 31)"
      by (simp only: bit_iff_odd)
    finally show ?thesis
      by (simp only: f_sign_def)
  qed
  ultimately show ?thesis
    by (cases "unat x div 2 ^ 31 = 0") auto
qed

lemma float_fields:
  "unat x = (if f_sign x then 2 ^ 31 else 0) + f_expo x * 2 ^ 23 + f_frac x"
proof -
  define n where "n = unat x"
  have n: "n < 2 ^ 32"
    using unsigned_less [of x, where 'a = nat] by (simp add: n_def)
  have top: "n div 2 ^ 31 = 0 \<or> n div 2 ^ 31 = 1"
  proof -
    from n have "n div 2 ^ 31 < 2" by (simp add: less_mult_imp_div_less)
    then show ?thesis by linarith
  qed
  have a: "n = n div 2 ^ 23 * 2 ^ 23 + n mod 2 ^ 23"
    by simp
  have b: "n div 2 ^ 23 = n div 2 ^ 23 div 256 * 256 + n div 2 ^ 23 mod 256"
    by simp
  have c: "n div 2 ^ 23 div 256 = n div 2 ^ 31"
    by (simp add: div_mult2_eq [symmetric])
  have bc: "n div 2 ^ 23 = n div 2 ^ 31 * 256 + n div 2 ^ 23 mod 256"
    using b by (simp only: c)
  have "n = (n div 2 ^ 31 * 256 + n div 2 ^ 23 mod 256) * 2 ^ 23 + n mod 2 ^ 23"
    by (metis a bc)
  then have "n = n div 2 ^ 31 * 2 ^ 31 + n div 2 ^ 23 mod 256 * 2 ^ 23 + n mod 2 ^ 23"
    by (simp add: algebra_simps)
  with top show ?thesis
    unfolding f_sign_div f_expo_div f_frac_mod n_def [symmetric] by auto
qed

lemma f_frac_less: "f_frac x < 2 ^ 23"
  by (simp add: f_frac_mod)

lemma f_expo_less: "f_expo x < 256"
  by (simp add: f_expo_div)

lemma float_of_fields:
  "word_of_nat ((if f_sign x then 2 ^ 31 else 0) + f_expo x * 2 ^ 23 + f_frac x) = x"
  by (simp only: float_fields [symmetric] of_nat_unat ucast_id)

lemma f_pack_fields:
  assumes "f_expo x \<noteq> 255"
  shows "f_pack (f_sign x) (f_expo x * 2 ^ 23 + f_frac x) = x"
proof -
  from assms f_expo_less [of x] have "f_expo x \<le> 254" by simp
  then have "f_expo x * 2 ^ 23 \<le> 254 * 2 ^ 23" by simp
  with f_frac_less [of x] have "f_expo x * 2 ^ 23 + f_frac x < 2139095040" by simp
  then have "f_pack (f_sign x) (f_expo x * 2 ^ 23 + f_frac x)
             = word_of_nat ((if f_sign x then 2 ^ 31 else 0) + (f_expo x * 2 ^ 23 + f_frac x))"
    by (simp add: f_pack_def)
  also have "\<dots> = x"
    using float_of_fields [of x] by (simp add: add.assoc)
  finally show ?thesis .
qed

lemma f_inf_sign: "is_inf x \<Longrightarrow> f_inf (f_sign x) = x"
  using float_of_fields [of x] by (auto simp add: is_inf_def f_inf_def)

lemma f_zero_sign: "is_zero x \<Longrightarrow> f_zero (f_sign x) = x"
  using float_of_fields [of x] by (auto simp add: is_zero_def f_zero_def)

lemma f_1_fields: "f_sign f_1 = False" "f_mant f_1 = 2 ^ 23" "f_exp2 f_1 = - 23"
  by (simp_all add: f_1_def f_sign_def f_mant_def f_exp2_def f_expo_def f_frac_def)

lemma fround_dyadic_one:
  assumes "\<not> is_nan x" "\<not> is_inf x" "\<not> is_zero x"
  shows "fround_dyadic (f_sign x) (2 ^ 23 * f_mant x) (- 23 + f_exp2 x) = x"
proof -
  define M where "M = f_mant x"
  define E where "E = f_exp2 x"
  from assms have fin: "f_expo x \<noteq> 255"
    by (auto simp add: is_nan_def is_inf_def)
  have Mpos: "0 < M"
    using assms(3) by (auto simp add: M_def f_mant_def is_zero_def)
  have Mlt: "M < 2 ^ 24"
    using f_frac_less [of x] by (simp add: M_def f_mant_def)
  have norm: "2 ^ 23 \<le> M \<or> E = - 149"
    by (simp add: M_def E_def f_mant_def f_exp2_def)
  have Ege: "- 149 \<le> E"
    by (simp add: E_def f_exp2_def)
  have k: "int (23 + nat (E - 23)) - int (nat (23 - E)) = E"
    by linarith
  have bits: "nat (E + 149) * 2 ^ 23 + M = f_expo x * 2 ^ 23 + f_frac x"
  proof (cases "f_expo x = 0")
    case True
    then show ?thesis by (simp add: M_def E_def f_mant_def f_exp2_def)
  next
    case False
    then have "nat (E + 149) = f_expo x - 1"
      by (simp add: E_def f_exp2_def)
    with False show ?thesis
      by (simp add: M_def f_mant_def algebra_simps)
  qed
  have "fround_dyadic (f_sign x) (2 ^ 23 * M) (- 23 + E)
        = fround (f_sign x) (M * 2 ^ (23 + nat (E - 23))) (2 ^ nat (23 - E))"
    by (simp add: fround_dyadic_def power_add mult.assoc mult.left_commute algebra_simps)
  also have "\<dots> = f_pack (f_sign x) (nat (E + 149) * 2 ^ 23 + M)"
    by (rule fround_exact [OF Mpos Mlt norm Ege k])
  also have "\<dots> = x"
    by (simp only: bits f_pack_fields [OF fin])
  finally show ?thesis
    by (simp only: M_def E_def)
qed

lemma fmul_one:
  assumes "\<not> is_nan x"
  shows "fmul f_1 x = x"
proof (cases "is_inf x")
  case True
  then have "\<not> is_zero x"
    using zero_not_inf by blast
  with True assms show ?thesis
    by (simp add: fmul_def class_f_1 f_1_fields f_inf_sign)
next
  case False
  note fin = this
  show ?thesis
  proof (cases "is_zero x")
    case True
    with assms fin show ?thesis
      by (simp add: fmul_def class_f_1 f_1_fields f_zero_sign)
  next
    case False
    with assms fin have "fmul f_1 x = fround_dyadic (f_sign x) (2 ^ 23 * f_mant x) (- 23 + f_exp2 x)"
      by (simp only: fmul_def class_f_1 f_1_fields simp_thms if_False)
    with fround_dyadic_one [OF assms fin False] show ?thesis
      by (simp only:)
  qed
qed

section \<open>A vertex on the plane\<close>

lemma slice_branch_first:
  "crosses s \<Longrightarrow> crosses t \<Longrightarrow>
   slice_branch res p q r s t u
   = res @ [STLSegment (point_on_line (STLSegment p q) s) (point_on_line (STLSegment q r) t)]"
  by (simp add: slice_branch_def crosses_def)

lemma slice_branch_second:
  "\<not> crosses s \<Longrightarrow> crosses t \<Longrightarrow> crosses u \<Longrightarrow>
   slice_branch res p q r s t u
   = res @ [STLSegment (point_on_line (STLSegment q r) t) (point_on_line (STLSegment r p) u)]"
  unfolding slice_branch_def crosses_def by (simp only: split: if_splits) blast

lemma slice_branch_third:
  "\<not> crosses t \<Longrightarrow> crosses u \<Longrightarrow> crosses s \<Longrightarrow>
   slice_branch res p q r s t u
   = res @ [STLSegment (point_on_line (STLSegment r p) u) (point_on_line (STLSegment p q) s)]"
  unfolding slice_branch_def crosses_def by (simp only: split: if_splits) blast

lemma crosses_f_zero: "crosses (f_zero s)"
  by (simp add: crosses_def fle_def flt_def f_key_def f_zero_def f_0_def f_1_def f_sign_def
      is_nan_def f_expo_def f_frac_def)

lemma crosses_zero: "is_zero x \<Longrightarrow> crosses x"
  using crosses_f_zero [of "f_sign x"] by (simp add: f_zero_sign)

lemma fdiv_zero_numerator:
  assumes "is_zero x" "\<not> is_zero y" "\<not> is_nan y"
  shows "is_zero (fdiv x y)"
  using assms by (simp add: fdiv_def zero_not_nan zero_not_inf class_f_zero)

lemma fsub_one_zero: "is_zero t \<Longrightarrow> fsub f_1 t = f_1"
  by (simp add: fsub_def fadd_def class_f_1 is_zero_fneg is_nan_fneg is_inf_fneg
      zero_not_nan zero_not_inf)

lemma fmul_zero_finite: "is_zero t \<Longrightarrow> is_finite x \<Longrightarrow> is_zero (fmul t x)"
  by (simp add: fmul_def is_finite_def zero_not_nan zero_not_inf class_f_zero)

lemma fadd_zero_right: "\<not> is_nan x \<Longrightarrow> is_zero z \<Longrightarrow> same_number (fadd x z) x"
  by (simp add: fadd_def same_number_def zero_not_nan zero_not_inf class_f_zero)

lemma interpolate_at_zero_coordinate:
  assumes "is_zero t" "\<not> is_nan x1" "is_finite x2"
  shows "same_number (fadd (fmul (fsub f_1 t) x1) (fmul t x2)) x1"
  using fadd_zero_right [OF assms(2) fmul_zero_finite [OF assms(1,3)]]
  by (simp add: fsub_one_zero [OF assms(1)] fmul_one [OF assms(2)])

lemma interpolate_at_zero:
  assumes "is_zero t" "number_vector v" "finite_vector w"
  shows "same_point (interpolate (v, w) t) v"
proof (cases v)
  case v: (STLVector x1 y1 z1)
  show ?thesis
  proof (cases w)
    case w: (STLVector x2 y2 z2)
    from assms(2,3) show ?thesis
      unfolding v w
      by (simp add: interpolate_at_zero_coordinate [OF assms(1)])
  qed
qed

lemma edge_parameter_quotient:
  "edge_parameter (v, w) a b c d = fdiv (fneg (plane_value v a b c d)) (edge_denominator (v, w) a b c)"
  by (cases v; cases w) simp

lemma outgoing_edge_crosses:
  assumes "is_zero (plane_value v a b c d)"
    and "\<not> is_zero (edge_denominator (v, w) a b c)" "\<not> is_nan (edge_denominator (v, w) a b c)"
  shows "is_zero (edge_parameter (v, w) a b c d)"
  using assms by (simp add: edge_parameter_quotient fdiv_zero_numerator is_zero_fneg)

lemma slice_single:
  "slice_polygons_at [STLPolygon n p q r] a b c d
   = slice_branch [] p q r (edge_parameter (p, q) a b c d) (edge_parameter (q, r) a b c d)
       (edge_parameter (r, p) a b c d)"
  by (cases p; cases q; cases r) (simp add: slice_polygons_at_def)

lemma point_on_line_interpolate: "point_on_line (STLSegment v w) t = interpolate (v, w) t"
  by (cases v; cases w) simp

section \<open>Sample evaluations\<close>

lemma crosses_samples:
  "crosses 0x80000000" "\<not> crosses f_1" "crosses 0x3F000000" "\<not> crosses 0x3F800003"
  "crosses 0x3F638E39" "\<not> crosses 0xFF800000"
  by (simp_all add: crosses_def f_0_def f_1_def float_eval)

lemma opposite_sides_parameters:
  "plane_value (STLVector 0 0 0) f_0 f_0 f_1 (fneg 0) = 0"
  "plane_value (STLVector f_1 0 f_1) f_0 f_0 f_1 (fneg 0) = f_1"
  "plane_value (STLVector 0 f_1 0xB3000000) f_0 f_0 f_1 (fneg 0) = 0xB3000000"
  "segment_plane_intersection (STLSegment (STLVector 0 0 0) (STLVector f_1 0 f_1))
     f_0 f_0 f_1 (fneg 0) = 0x80000000"
  "segment_plane_intersection (STLSegment (STLVector f_1 0 f_1) (STLVector 0 f_1 0xB3000000))
     f_0 f_0 f_1 (fneg 0) = f_1"
  "segment_plane_intersection (STLSegment (STLVector 0 f_1 0xB3000000) (STLVector 0 0 0))
     f_0 f_0 f_1 (fneg 0) = f_1"
  by (simp_all add: f_0_def f_1_def float_eval)

lemma same_side_parameters:
  "plane_value (STLVector f_1 0 0) 0x40400000 f_0 f_0 0xC0400000 = 0"
  "plane_value (STLVector 0x40000000 f_1 0) 0x40400000 f_0 f_0 0xC0400000 = 0x40400000"
  "plane_value (STLVector 0x3F800003 0 f_1) 0x40400000 f_0 f_0 0xC0400000 = 0x35800000"
  "segment_plane_intersection (STLSegment (STLVector f_1 0 0) (STLVector 0x40000000 f_1 0))
     0x40400000 f_0 f_0 0xC0400000 = 0x80000000"
  "segment_plane_intersection (STLSegment (STLVector 0x40000000 f_1 0) (STLVector 0x3F800003 0 f_1))
     0x40400000 f_0 f_0 0xC0400000 = 0x3F800003"
  "segment_plane_intersection (STLSegment (STLVector 0x3F800003 0 f_1) (STLVector f_1 0 0))
     0x40400000 f_0 f_0 0xC0400000 = 0x3F638E39"
  by (simp_all add: f_0_def f_1_def float_eval)

lemma same_side_points:
  "point_on_line (STLSegment (STLVector 0x3F800003 0 f_1) (STLVector f_1 0 0)) 0x3F638E39
   = STLVector f_1 0 0x3DE38E38"
  "point_on_line (STLSegment (STLVector f_1 0 0) (STLVector 0x40000000 f_1 0)) 0x80000000
   = STLVector f_1 0 0"
  by (simp_all add: f_0_def f_1_def float_eval)

lemma signed_zero_parameters:
  "plane_value (STLVector 0x80000000 0 0) f_0 f_0 f_1 (fneg 0) = 0"
  "plane_value (STLVector 0xBF800000 0 f_1) f_0 f_0 f_1 (fneg 0) = f_1"
  "plane_value (STLVector 0xBF800000 0 0xBF800000) f_0 f_0 f_1 (fneg 0) = 0xBF800000"
  "segment_plane_intersection (STLSegment (STLVector 0x80000000 0 0) (STLVector 0xBF800000 0 f_1))
     f_0 f_0 f_1 (fneg 0) = 0x80000000"
  "segment_plane_intersection (STLSegment (STLVector 0xBF800000 0 f_1) (STLVector 0xBF800000 0 0xBF800000))
     f_0 f_0 f_1 (fneg 0) = 0x3F000000"
  by (simp_all add: f_0_def f_1_def float_eval)

lemma signed_zero_last_parameter:
  "segment_plane_intersection (STLSegment (STLVector 0xBF800000 0 0xBF800000) (STLVector 0x80000000 0 0))
     f_0 f_0 f_1 (fneg 0) = f_1"
  "edge_denominator (STLVector 0x80000000 0 0, STLVector 0xBF800000 0 f_1) f_0 f_0 f_1 = f_1"
  by (simp_all add: f_0_def f_1_def float_eval)

lemma exact_same_side_parameters:
  "plane_value (STLVector 0 0 0) f_0 f_0 f_1 (fneg 0) = 0"
  "edge_denominator (STLVector 0 0 0, STLVector f_1 0 f_1) f_0 f_0 f_1 = f_1"
  "segment_plane_intersection (STLSegment (STLVector f_1 0 f_1) (STLVector 0 f_1 f_1))
     f_0 f_0 f_1 (fneg 0) = 0xFF800000"
  "segment_plane_intersection (STLSegment (STLVector 0 f_1 f_1) (STLVector 0 0 0))
     f_0 f_0 f_1 (fneg 0) = f_1"
  by (simp_all add: f_0_def f_1_def float_eval)

lemma class_samples:
  "is_zero 0" "is_zero 0x80000000" "is_finite 0" "is_finite f_1" "is_finite 0xBF800000"
  "\<not> is_nan 0" "\<not> is_nan 0x80000000"
  by (simp_all add: is_finite_def is_zero_def is_nan_def is_inf_def f_expo_def f_frac_def f_1_def)

lemma side_samples:
  "flt f_0 f_1" "flt 0xB3000000 f_0" "flt f_0 0x40400000" "flt f_0 0x35800000" "flt 0xBF800000 f_0"
  by (simp_all add: f_0_def f_1_def float_eval)

lemma signed_zero_points:
  "point_on_line (STLSegment (STLVector 0x80000000 0 0) (STLVector 0xBF800000 0 f_1)) 0x80000000
   = STLVector 0 0 0"
  "point_on_line (STLSegment (STLVector 0xBF800000 0 f_1) (STLVector 0xBF800000 0 0xBF800000)) 0x3F000000
   = STLVector 0xBF800000 0 0"
  by (simp_all add: f_0_def f_1_def float_eval)

section \<open>Claims about the slicer\<close>

text \<open>
  Claim C3. For every triangle the slicer computes, for each edge, the parameter
  \<open>t = -(a*x1 + b*y1 + c*z1 + d) / (a*(x2 - x1) + b*(y2 - y1) + c*(z2 - z1))\<close>; an edge
  crosses iff \<open>t\<close> lies in the half-open interval from 0 to 1; the pairs of edges are tried
  in the order (p-q, q-r), (q-r, r-p), (r-p, p-q); the first pair with both edges crossing
  yields the segment of the two points \<open>(1 - t) * start + t * end\<close>; a triangle yields at
  most one segment and none when no pair qualifies. The result of the loop is the
  concatenation of what \<open>triangle_segments\<close>, which follows these words, gives per triangle.
\<close>

theorem slice_polygons_at_refines_triangle_segments:
  "slice_polygons_at polygons a b c d
     = concat (map (\<lambda>poly. triangle_segments poly a b c d) polygons)
   \<and> length (triangle_segments poly a b c d) \<le> 1
   \<and> segment_plane_intersection (STLSegment v w) a b c d = edge_parameter (v, w) a b c d
   \<and> point_on_line (STLSegment v w) t = interpolate (v, w) t"
proof -
  have "slice_polygons_at polygons a b c d
        = concat (map (\<lambda>poly. triangle_segments poly a b c d) polygons)"
    by (simp add: slice_polygons_at_concat slice_body_triangle_segments)
  moreover have "length (triangle_segments poly a b c d) \<le> 1"
    using length_slice_body [of poly a b c d] by (simp add: slice_body_triangle_segments)
  moreover have "segment_plane_intersection (STLSegment v w) a b c d = edge_parameter (v, w) a b c d"
    by (cases v; cases w) simp
  moreover have "point_on_line (STLSegment v w) t = interpolate (v, w) t"
    by (cases v; cases w) simp
  ultimately show ?thesis by blast
qed

text \<open>
  Claim C7. Slicing at a fixed x, y or z is the general slicer called with the
  coefficients \<open>(1, 0, 0, -x)\<close>, \<open>(0, 1, 0, -y)\<close> and \<open>(0, 0, 1, -z)\<close>.
\<close>

theorem axis_slicers_are_general_slicer:
  "slice_polygons_at_x polygons x = slice_polygons_at polygons f_1 f_0 f_0 (fneg x)
   \<and> slice_polygons_at_y polygons y = slice_polygons_at polygons f_0 f_1 f_0 (fneg y)
   \<and> slice_polygons_at_z polygons z = slice_polygons_at polygons f_0 f_0 f_1 (fneg z)"
  by (simp add: slice_polygons_at_x_def slice_polygons_at_y_def slice_polygons_at_z_def)


text \<open>
  Claim C9. The result does not depend on the normals: two polygon lists that agree,
  entry by entry, on the vertices a, b and c give the same segments for every plane.
\<close>

theorem slice_polygons_at_ignores_normals:
  assumes "list_all2 (\<lambda>poly poly'. poly_a poly = poly_a poly' \<and> poly_b poly = poly_b poly'
              \<and> poly_c poly = poly_c poly') polygons polygons'"
  shows "slice_polygons_at polygons a b c d = slice_polygons_at polygons' a b c d"
  using assms
proof (induction polygons polygons' rule: list_all2_induct)
  case Nil
  show ?case by simp
next
  case (Cons poly polygons poly' polygons')
  obtain n p q r where poly: "poly = STLPolygon n p q r" by (cases poly)
  obtain n' p' q' r' where poly': "poly' = STLPolygon n' p' q' r'" by (cases poly')
  from Cons.hyps(1) have "p' = p" "q' = q" "r' = r"
    by (simp_all add: poly poly')
  then have "slice_body [] poly a b c d = slice_body [] poly' a b c d"
    unfolding poly poly' by (simp only: slice_body_normal [of n p q r a b c d n'])
  with Cons.IH show ?case
    by (simp add: slice_polygons_at_Cons)
qed

theorem slice_polygons_at_ignores_normals_witness:
  "list_all2 (\<lambda>poly poly'. poly_a poly = poly_a poly' \<and> poly_b poly = poly_b poly'
       \<and> poly_c poly = poly_c poly')
     [STLPolygon (STLVector 0 0 f_1) (STLVector 0 0 0) (STLVector f_1 0 0) (STLVector 0 f_1 0)]
     [STLPolygon (STLVector f_1 f_1 0) (STLVector 0 0 0) (STLVector f_1 0 0) (STLVector 0 f_1 0)]
   \<and> slice_polygons_at
         [STLPolygon (STLVector 0 0 f_1) (STLVector 0 0 0) (STLVector f_1 0 0) (STLVector 0 f_1 0)]
         f_1 f_0 f_0 f_0
       = slice_polygons_at
         [STLPolygon (STLVector f_1 f_1 0) (STLVector 0 0 0) (STLVector f_1 0 0) (STLVector 0 f_1 0)]
         f_1 f_0 f_0 f_0"
  using slice_polygons_at_ignores_normals
    [of "[STLPolygon (STLVector 0 0 f_1) (STLVector 0 0 0) (STLVector f_1 0 0) (STLVector 0 f_1 0)]"
        "[STLPolygon (STLVector f_1 f_1 0) (STLVector 0 0 0) (STLVector f_1 0 0) (STLVector 0 f_1 0)]"
        f_1 f_0 f_0 f_0]
  by simp

text \<open>
  Claim C10. The slicer keeps the input order: its result is the concatenation, in
  input order, of the results for the single polygons, so it distributes over appending
  polygon lists, and it is never longer than the input. Being a function of its
  arguments, equal inputs give equal outputs.
\<close>

theorem slice_polygons_at_in_order:
  "slice_polygons_at polygons a b c d
     = concat (map (\<lambda>poly. slice_polygons_at [poly] a b c d) polygons)
   \<and> slice_polygons_at (ps @ qs) a b c d
     = slice_polygons_at ps a b c d @ slice_polygons_at qs a b c d
   \<and> length (slice_polygons_at polygons a b c d) \<le> length polygons"
proof -
  have "slice_polygons_at polygons a b c d
        = concat (map (\<lambda>poly. slice_polygons_at [poly] a b c d) polygons)"
    using slice_polygons_at_concat [of polygons a b c d]
    by (simp add: slice_polygons_at_single)
  then show ?thesis
    using slice_polygons_at_append [of ps qs a b c d] length_slice_polygons_at [of polygons a b c d]
    by blast
qed



text \<open>
  Claim C2, amended. Take a triangle with a vertex \<open>v\<close> at which the plane expression
  evaluates to zero, and whose outgoing edge (to the next vertex in the order p, q, r)
  has a denominator that is neither zero nor a NaN. Then the parameter of the outgoing
  edge is a zero and that edge crosses. If the computed parameters of the other two edges
  both lie outside the interval from 0 to 1, which is what exact arithmetic gives when the
  other two vertices lie strictly on one side, no segment is emitted. If the parameter of
  the opposite edge lies in the interval and that of the edge arriving at \<open>v\<close> does not,
  which is what exact arithmetic gives when they lie strictly on opposite sides, exactly
  one segment is emitted; its first endpoint is the point computed on the outgoing edge,
  and when \<open>v\<close> has no NaN coordinate and the next vertex is finite, every coordinate of
  that point has the bit pattern of the coordinate of \<open>v\<close>, except that a zero may differ
  in sign.
\<close>

theorem vertex_on_plane_attributed_to_outgoing_edge:
  assumes "(v, w, x) = (p, q, r) \<or> (v, w, x) = (q, r, p) \<or> (v, w, x) = (r, p, q)"
    and "is_zero (plane_value v a b c d)"
    and "\<not> is_zero (edge_denominator (v, w) a b c)"
    and "\<not> is_nan (edge_denominator (v, w) a b c)"
  shows "is_zero (edge_parameter (v, w) a b c d) \<and> crosses (edge_parameter (v, w) a b c d)
    \<and> (\<not> crosses (edge_parameter (w, x) a b c d) \<and> \<not> crosses (edge_parameter (x, v) a b c d)
         \<longrightarrow> slice_polygons_at [STLPolygon n p q r] a b c d = [])
    \<and> (crosses (edge_parameter (w, x) a b c d) \<and> \<not> crosses (edge_parameter (x, v) a b c d)
         \<longrightarrow> slice_polygons_at [STLPolygon n p q r] a b c d
             = [STLSegment (interpolate (v, w) (edge_parameter (v, w) a b c d))
                           (interpolate (w, x) (edge_parameter (w, x) a b c d))])
    \<and> (number_vector v \<and> finite_vector w
         \<longrightarrow> same_point (interpolate (v, w) (edge_parameter (v, w) a b c d)) v)"
proof -
  have zero: "is_zero (edge_parameter (v, w) a b c d)"
    using assms(2-4) by (rule outgoing_edge_crosses)
  then have out: "crosses (edge_parameter (v, w) a b c d)"
    by (rule crosses_zero)
  have none: "slice_polygons_at [STLPolygon n p q r] a b c d = []"
    if "\<not> crosses (edge_parameter (w, x) a b c d)" "\<not> crosses (edge_parameter (x, v) a b c d)"
    using assms(1) that by (auto simp add: slice_single slice_branch_none)
  have one: "slice_polygons_at [STLPolygon n p q r] a b c d
             = [STLSegment (interpolate (v, w) (edge_parameter (v, w) a b c d))
                           (interpolate (w, x) (edge_parameter (w, x) a b c d))]"
    if "crosses (edge_parameter (w, x) a b c d)" "\<not> crosses (edge_parameter (x, v) a b c d)"
    using assms(1) that out
    by (auto simp add: slice_single slice_branch_first slice_branch_second slice_branch_third
        point_on_line_interpolate)
  have point: "same_point (interpolate (v, w) (edge_parameter (v, w) a b c d)) v"
    if "number_vector v" "finite_vector w"
    using zero that by (rule interpolate_at_zero)
  from zero out none one point show ?thesis
    by blast
qed

theorem vertex_on_plane_attributed_to_outgoing_edge_witness:
  "is_zero (plane_value (STLVector 0x80000000 0 0) f_0 f_0 f_1 (fneg 0))
   \<and> \<not> is_zero (edge_denominator (STLVector 0x80000000 0 0, STLVector 0xBF800000 0 f_1) f_0 f_0 f_1)
   \<and> \<not> is_nan (edge_denominator (STLVector 0x80000000 0 0, STLVector 0xBF800000 0 f_1) f_0 f_0 f_1)
   \<and> crosses (edge_parameter (STLVector 0x80000000 0 0, STLVector 0xBF800000 0 f_1) f_0 f_0 f_1 (fneg 0))
   \<and> crosses (edge_parameter (STLVector 0xBF800000 0 f_1, STLVector 0xBF800000 0 0xBF800000)
         f_0 f_0 f_1 (fneg 0))
   \<and> \<not> crosses (edge_parameter (STLVector 0xBF800000 0 0xBF800000, STLVector 0x80000000 0 0)
         f_0 f_0 f_1 (fneg 0))
   \<and> slice_polygons_at
         [STLPolygon (STLVector 0 f_1 0) (STLVector 0x80000000 0 0) (STLVector 0xBF800000 0 f_1)
            (STLVector 0xBF800000 0 0xBF800000)]
         f_0 f_0 f_1 (fneg 0)
       = [STLSegment (STLVector 0 0 0) (STLVector 0xBF800000 0 0)]
   \<and> number_vector (STLVector 0x80000000 0 0) \<and> finite_vector (STLVector 0xBF800000 0 f_1)
   \<and> same_point (STLVector 0 0 0) (STLVector 0x80000000 0 0)
   \<and> is_zero (plane_value (STLVector 0 0 0) f_0 f_0 f_1 (fneg 0))
   \<and> \<not> is_zero (edge_denominator (STLVector 0 0 0, STLVector f_1 0 f_1) f_0 f_0 f_1)
   \<and> \<not> is_nan (edge_denominator (STLVector 0 0 0, STLVector f_1 0 f_1) f_0 f_0 f_1)
   \<and> \<not> crosses (edge_parameter (STLVector f_1 0 f_1, STLVector 0 f_1 f_1) f_0 f_0 f_1 (fneg 0))
   \<and> \<not> crosses (edge_parameter (STLVector 0 f_1 f_1, STLVector 0 0 0) f_0 f_0 f_1 (fneg 0))
   \<and> slice_polygons_at
         [STLPolygon (STLVector 0 f_1 0) (STLVector 0 0 0) (STLVector f_1 0 f_1) (STLVector 0 f_1 f_1)]
         f_0 f_0 f_1 (fneg 0)
       = []"
proof -
  let ?p = "STLVector 0x80000000 0 0" and ?q = "STLVector 0xBF800000 0 f_1"
    and ?r = "STLVector 0xBF800000 0 0xBF800000"
  let ?p' = "STLVector 0 0 0" and ?q' = "STLVector f_1 0 f_1" and ?r' = "STLVector 0 f_1 f_1"
  have ep: "edge_parameter (v, w) a b c d = segment_plane_intersection (STLSegment v w) a b c d"
    for v w a b c d
    by (cases v; cases w) simp
  have on: "is_zero (plane_value ?p f_0 f_0 f_1 (fneg 0))"
    by (simp only: signed_zero_parameters class_samples)
  have den: "\<not> is_zero (edge_denominator (?p, ?q) f_0 f_0 f_1)"
    "\<not> is_nan (edge_denominator (?p, ?q) f_0 f_0 f_1)"
    by (simp_all only: signed_zero_last_parameter class_f_1 simp_thms)
  have opp: "crosses (edge_parameter (?q, ?r) f_0 f_0 f_1 (fneg 0))"
    by (simp only: ep signed_zero_parameters crosses_samples)
  have inc: "\<not> crosses (edge_parameter (?r, ?p) f_0 f_0 f_1 (fneg 0))"
    by (simp only: ep signed_zero_last_parameter crosses_samples simp_thms)
  have vec: "number_vector ?p" "finite_vector ?q"
    by (simp_all add: class_samples)
  have pts: "interpolate (?p, ?q) (edge_parameter (?p, ?q) f_0 f_0 f_1 (fneg 0)) = STLVector 0 0 0"
    "interpolate (?q, ?r) (edge_parameter (?q, ?r) f_0 f_0 f_1 (fneg 0)) = STLVector 0xBF800000 0 0"
    by (simp_all only: ep point_on_line_interpolate [symmetric] signed_zero_parameters
        signed_zero_points)
  have on': "is_zero (plane_value ?p' f_0 f_0 f_1 (fneg 0))"
    by (simp only: exact_same_side_parameters class_samples)
  have den': "\<not> is_zero (edge_denominator (?p', ?q') f_0 f_0 f_1)"
    "\<not> is_nan (edge_denominator (?p', ?q') f_0 f_0 f_1)"
    by (simp_all only: exact_same_side_parameters class_f_1 simp_thms)
  have opp': "\<not> crosses (edge_parameter (?q', ?r') f_0 f_0 f_1 (fneg 0))"
    by (simp only: ep exact_same_side_parameters crosses_samples simp_thms)
  have inc': "\<not> crosses (edge_parameter (?r', ?p') f_0 f_0 f_1 (fneg 0))"
    by (simp only: ep exact_same_side_parameters crosses_samples simp_thms)
  note first = vertex_on_plane_attributed_to_outgoing_edge
    [of ?p ?q ?r ?p ?q ?r f_0 f_0 f_1 "fneg 0" "STLVector 0 f_1 0", OF _ on den]
  note second = vertex_on_plane_attributed_to_outgoing_edge
    [of ?p' ?q' ?r' ?p' ?q' ?r' f_0 f_0 f_1 "fneg 0" "STLVector 0 f_1 0", OF _ on' den']
  from first opp inc vec pts
  have 1: "crosses (edge_parameter (?p, ?q) f_0 f_0 f_1 (fneg 0))"
    "slice_polygons_at [STLPolygon (STLVector 0 f_1 0) ?p ?q ?r] f_0 f_0 f_1 (fneg 0)
     = [STLSegment (STLVector 0 0 0) (STLVector 0xBF800000 0 0)]"
    "same_point (STLVector 0 0 0) ?p"
    by simp_all
  from second opp' inc'
  have 2: "slice_polygons_at [STLPolygon (STLVector 0 f_1 0) ?p' ?q' ?r'] f_0 f_0 f_1 (fneg 0) = []"
    by simp
  from on den opp inc vec 1 on' den' opp' inc' 2 show ?thesis
    by (simp only: simp_thms)
qed

text \<open>
  Claim C2 as stated fails in single precision, in each of its parts. With \<open>p\<close> on the
  plane z = 0, \<open>q\<close> at z = 1 and \<open>r\<close> at z = -2^-25, the difference of the two heights
  rounds to -1, the parameters of q-r and r-p both come out as 1, and no segment is
  emitted although \<open>q\<close> and \<open>r\<close> lie on opposite sides. On the plane 3x - 3 = 0 with \<open>p\<close>
  at x = 1 and \<open>q\<close>, \<open>r\<close> both at x > 1, rounding makes the parameter of r-p 8/9 instead
  of 1, and a segment is emitted although \<open>q\<close> and \<open>r\<close> lie on one side. And for
  \<open>p = (-0, 0, 0)\<close> the endpoint computed at \<open>p\<close> is \<open>(+0, 0, 0)\<close>, which is not the bit
  pattern of \<open>p\<close>.
\<close>

theorem rounded_parameters_counterexample:
  "is_zero (plane_value (STLVector 0 0 0) f_0 f_0 f_1 (fneg 0))
   \<and> flt f_0 (plane_value (STLVector f_1 0 f_1) f_0 f_0 f_1 (fneg 0))
   \<and> flt (plane_value (STLVector 0 f_1 0xB3000000) f_0 f_0 f_1 (fneg 0)) f_0
   \<and> slice_polygons_at_z
        [STLPolygon (STLVector 0 f_1 0) (STLVector 0 0 0) (STLVector f_1 0 f_1) (STLVector 0 f_1 0xB3000000)]
        0 = []
   \<and> is_zero (plane_value (STLVector f_1 0 0) 0x40400000 f_0 f_0 0xC0400000)
   \<and> flt f_0 (plane_value (STLVector 0x40000000 f_1 0) 0x40400000 f_0 f_0 0xC0400000)
   \<and> flt f_0 (plane_value (STLVector 0x3F800003 0 f_1) 0x40400000 f_0 f_0 0xC0400000)
   \<and> slice_polygons_at
        [STLPolygon (STLVector f_1 0 0) (STLVector f_1 0 0) (STLVector 0x40000000 f_1 0)
           (STLVector 0x3F800003 0 f_1)]
        0x40400000 f_0 f_0 0xC0400000
       = [STLSegment (STLVector f_1 0 0x3DE38E38) (STLVector f_1 0 0)]
   \<and> is_zero (plane_value (STLVector 0x80000000 0 0) f_0 f_0 f_1 (fneg 0))
   \<and> flt f_0 (plane_value (STLVector 0xBF800000 0 f_1) f_0 f_0 f_1 (fneg 0))
   \<and> flt (plane_value (STLVector 0xBF800000 0 0xBF800000) f_0 f_0 f_1 (fneg 0)) f_0
   \<and> slice_polygons_at_z
        [STLPolygon (STLVector 0 f_1 0) (STLVector 0x80000000 0 0) (STLVector 0xBF800000 0 f_1)
           (STLVector 0xBF800000 0 0xBF800000)]
        0 = [STLSegment (STLVector 0 0 0) (STLVector 0xBF800000 0 0)]
   \<and> STLVector 0 0 0 \<noteq> STLVector 0x80000000 0 0
   \<and> STLVector 0xBF800000 0 0 \<noteq> STLVector 0x80000000 0 0"
proof -
  have a: "slice_polygons_at_z
        [STLPolygon (STLVector 0 f_1 0) (STLVector 0 0 0) (STLVector f_1 0 f_1) (STLVector 0 f_1 0xB3000000)]
        0 = []"
    using crosses_samples
    by (simp only: slice_polygons_at_z_def slice_polygons_at_def slice_loop.simps slice_body.simps
        opposite_sides_parameters slice_branch_none simp_thms)
  have b: "slice_polygons_at
        [STLPolygon (STLVector f_1 0 0) (STLVector f_1 0 0) (STLVector 0x40000000 f_1 0)
           (STLVector 0x3F800003 0 f_1)]
        0x40400000 f_0 f_0 0xC0400000
       = [STLSegment (STLVector f_1 0 0x3DE38E38) (STLVector f_1 0 0)]"
    using crosses_samples
    by (simp only: slice_polygons_at_def slice_loop.simps slice_body.simps
        same_side_parameters slice_branch_third same_side_points append_Nil simp_thms)
  have c: "slice_polygons_at_z
        [STLPolygon (STLVector 0 f_1 0) (STLVector 0x80000000 0 0) (STLVector 0xBF800000 0 f_1)
           (STLVector 0xBF800000 0 0xBF800000)]
        0 = [STLSegment (STLVector 0 0 0) (STLVector 0xBF800000 0 0)]"
    using crosses_samples
    by (simp only: slice_polygons_at_z_def slice_polygons_at_def slice_loop.simps slice_body.simps
        signed_zero_parameters slice_branch_first signed_zero_points append_Nil simp_thms)
  have ne: "STLVector 0 0 0 \<noteq> STLVector 0x80000000 0 0"
    "STLVector 0xBF800000 0 0 \<noteq> STLVector 0x80000000 0 0"
    by simp_all
  from a b c ne side_samples class_samples show ?thesis
    by (simp only: opposite_sides_parameters same_side_parameters signed_zero_parameters simp_thms)
qed

section \<open>Claims about the reader\<close>

text \<open>
  Claim C4. A source that holds 80 header bytes, a little-endian 32-bit count \<open>N\<close> and
  at least \<open>50 * N\<close> further bytes is parsed successfully: the validity flag is set, the
  header is the first 80 bytes, and the polygons are the \<open>N\<close> records in file order,
  each decoded from its twelve little-endian floats, the two attribute bytes dropped.
  Hence parsing a serialised mesh (with any attribute bytes, and any bytes after the last
  record) gives back its header and its triangles, bit for bit.
\<close>

theorem well_formed_source_is_parsed:
  assumes "fs path = Some bytes" and "84 + 50 * declared_count bytes \<le> length bytes"
  shows "STLReader_ctor fs path
           = ([], Inr \<lparr>stl_header = take 80 bytes,
                        stl_polygons = map (\<lambda>i. decode_record (record_at bytes i))
                                           [0..<declared_count bytes],
                        valid = True\<rparr>)
         \<and> (\<forall>hdr recs extra.
               bytes = serialize hdr recs @ extra \<and> length hdr = 80 \<and> length recs < 2 ^ 32
               \<longrightarrow> STLReader_ctor fs path
                     = ([], Inr \<lparr>stl_header = hdr, stl_polygons = map fst recs, valid = True\<rparr>))"
proof -
  have "STLReader_ctor fs path
        = ([], Inr \<lparr>stl_header = hdr, stl_polygons = map fst recs, valid = True\<rparr>)"
    if "bytes = serialize hdr recs @ extra" "length hdr = 80" "length recs < 2 ^ 32"
    for hdr recs extra
    using STLReader_ctor_serialized [of fs path hdr recs extra] assms(1) that by simp
  then show ?thesis
    using STLReader_ctor_well_formed [of fs path bytes] assms by blast
qed

theorem well_formed_source_is_parsed_witness:
  "one_file ''cube.stl''
       (serialize (replicate 80 0x20)
          [(STLPolygon (STLVector 0 0 f_1) (STLVector 0 0 0) (STLVector f_1 0 0) (STLVector 0 f_1 0),
            0xAB, 0xCD)] @ [0xFF]) ''cube.stl''
     = Some (serialize (replicate 80 0x20)
          [(STLPolygon (STLVector 0 0 f_1) (STLVector 0 0 0) (STLVector f_1 0 0) (STLVector 0 f_1 0),
            0xAB, 0xCD)] @ [0xFF])
   \<and> 84 + 50 * declared_count (serialize (replicate 80 0x20)
          [(STLPolygon (STLVector 0 0 f_1) (STLVector 0 0 0) (STLVector f_1 0 0) (STLVector 0 f_1 0),
            0xAB, 0xCD)] @ [0xFF])
       \<le> length (serialize (replicate 80 0x20)
          [(STLPolygon (STLVector 0 0 f_1) (STLVector 0 0 0) (STLVector f_1 0 0) (STLVector 0 f_1 0),
            0xAB, 0xCD)] @ [0xFF])
   \<and> length (replicate 80 (0x20 :: byte)) = 80
   \<and> STLReader_ctor
        (one_file ''cube.stl''
          (serialize (replicate 80 0x20)
            [(STLPolygon (STLVector 0 0 f_1) (STLVector 0 0 0) (STLVector f_1 0 0) (STLVector 0 f_1 0),
              0xAB, 0xCD)] @ [0xFF])) ''cube.stl''
       = ([], Inr \<lparr>stl_header = replicate 80 0x20,
                    stl_polygons =
                      [STLPolygon (STLVector 0 0 f_1) (STLVector 0 0 0) (STLVector f_1 0 0) (STLVector 0 f_1 0)],
                    valid = True\<rparr>)"
proof -
  let ?poly = "STLPolygon (STLVector 0 0 f_1) (STLVector 0 0 0) (STLVector f_1 0 0) (STLVector 0 f_1 0)"
  let ?bytes = "serialize (replicate 80 0x20) [(?poly, 0xAB, 0xCD)] @ [0xFF]"
  have src: "one_file ''cube.stl'' ?bytes ''cube.stl'' = Some ?bytes"
    by (simp add: one_file_def)
  have count: "declared_count ?bytes = 1"
    using declared_count_serialize [of "replicate 80 0x20" "[(?poly, 0xAB, 0xCD)]" "[0xFF]"]
    by simp
  have len: "84 + 50 * declared_count ?bytes \<le> length ?bytes"
    by (simp add: count length_serialize)
  have "\<forall>hdr recs extra.
          ?bytes = serialize hdr recs @ extra \<and> length hdr = 80 \<and> length recs < 2 ^ 32
          \<longrightarrow> STLReader_ctor (one_file ''cube.stl'' ?bytes) ''cube.stl''
                = ([], Inr \<lparr>stl_header = hdr, stl_polygons = map fst recs, valid = True\<rparr>)"
    using well_formed_source_is_parsed [of "one_file ''cube.stl'' ?bytes" "''cube.stl''" ?bytes] src len
    by blast
  from this [rule_format, of "replicate 80 0x20" "[(?poly, 0xAB, 0xCD)]" "[0xFF]"]
  have "STLReader_ctor (one_file ''cube.stl'' ?bytes) ''cube.stl''
        = ([], Inr \<lparr>stl_header = replicate 80 0x20, stl_polygons = [?poly], valid = True\<rparr>)"
    by simp
  with src len show ?thesis
    by (simp only: length_replicate simp_thms)
qed




text \<open>
  Claim C6. When the file cannot be opened the constructor reports it on the error stream
  and returns normally with an object whose polygon list is empty and whose validity flag
  is false, which the caller reads through the conversion to bool.
\<close>

theorem cannot_open_yields_invalid_reader:
  assumes "fs path = None"
  shows "\<exists>r. STLReader_ctor fs path = (cannot_open_message path, Inr r)
           \<and> stl_polygons r = [] \<and> stl_header r = [] \<and> \<not> valid r \<and> \<not> operator_bool r"
  using assms by (simp add: STLReader_ctor_def operator_bool_def)

theorem cannot_open_yields_invalid_reader_witness:
  "(Map.empty :: string \<Rightarrow> byte list option) ''model.stl'' = None
   \<and> (\<exists>r. STLReader_ctor Map.empty ''model.stl'' = (cannot_open_message ''model.stl'', Inr r)
           \<and> stl_polygons r = [] \<and> stl_header r = [] \<and> \<not> valid r \<and> \<not> operator_bool r)"
  using cannot_open_yields_invalid_reader [of Map.empty "''model.stl''"] by simp

end
